theory Spec2Isabelle
  imports Complex_Main "HOL-Library.Sublist"
begin

section \<open>Python values\<close>

text \<open>
  A Python \<open>str\<close> is a sequence of Unicode code points, so it is modelled as a list of
  natural numbers (one per code point). ASCII literals of the source are written with
  \<open>ustr_of\<close>; characters outside ASCII are given by their code points.
\<close>

type_synonym ustr = "nat list"

definition ustr_of :: "string \<Rightarrow> ustr" where
  "ustr_of s = map of_char s"

text \<open>
  Exceptions of the source are values. \<open>ServiceError\<close> stands for whatever an
  outbound call raises (a connection failure, a body that is not JSON, a completion
  without text content).
\<close>

datatype py_error = KeyError | TypeError | IndexError | ServiceError

subsection \<open>The string methods the program uses\<close>

text \<open>
  \<open>str.strip()\<close> without argument removes leading and trailing characters for which
  \<open>str.isspace\<close> holds.
\<close>

definition is_space :: "nat \<Rightarrow> bool" where
  "is_space c =
     (c \<in> {9, 10, 11, 12, 13, 28, 29, 30, 31, 32, 133, 160, 5760,
            8232, 8233, 8239, 8287, 12288} \<or> (8192 \<le> c \<and> c \<le> 8202))"

definition py_strip :: "ustr \<Rightarrow> ustr" where
  "py_strip s = rev (dropWhile is_space (rev (dropWhile is_space s)))"

text \<open>
  \<open>s.split(sep)\<close> for a non-empty separator: scan from the left, cut at every
  occurrence of \<open>sep\<close> and continue behind it. \<open>cur\<close> is the piece being read.
  (Python raises \<open>ValueError\<close> for an empty separator; the program only passes the
  literal of two newlines.)
\<close>

function split_scan :: "ustr \<Rightarrow> ustr \<Rightarrow> ustr \<Rightarrow> ustr list" where
  "split_scan sep cur [] = [cur]"
| "split_scan sep cur (c # cs) =
     (if sep \<noteq> [] \<and> prefix sep (c # cs)
      then cur # split_scan sep [] (drop (length sep) (c # cs))
      else split_scan sep (cur @ [c]) cs)"
  by pat_completeness auto
termination
  by (relation "measure (\<lambda>(sep, cur, s). length s)") (auto simp: neq_Nil_conv)

definition py_split :: "ustr \<Rightarrow> ustr \<Rightarrow> ustr list" where
  "py_split sep s = split_scan sep [] s"

abbreviation newline :: nat where
  "newline \<equiv> 10"

text \<open>\<open>sep.join(items)\<close> on strings.\<close>

fun py_join :: "ustr \<Rightarrow> ustr list \<Rightarrow> ustr" where
  "py_join sep [] = []"
| "py_join sep [x] = x"
| "py_join sep (x # y # ys) = x @ sep @ py_join sep (y # ys)"

subsection \<open>Decoded JSON\<close>

text \<open>
  What \<open>response.json()\<close> returns and what \<open>json=\<close> sends: \<open>None\<close>, booleans,
  numbers (\<open>JNonFinite\<close> is NaN or an infinity, which Python's decoder accepts),
  strings, lists, and dicts in insertion order with string keys.
\<close>

datatype json =
    JNull
  | JBool bool
  | JNum rat
  | JNonFinite
  | JStr ustr
  | JArr "json list"
  | JObj "(ustr \<times> json) list"

subsection \<open>Operations on decoded JSON\<close>

text \<open>
  A dict is an association list whose keys are distinct; looking a key up takes its
  binding. \<open>py_getitem x k\<close> is \<open>x[k]\<close> for a string \<open>k\<close>: only a dict can be
  subscripted by a string.
\<close>

definition on_ok :: "py_error + 'a \<Rightarrow> ('a \<Rightarrow> py_error + 'b) \<Rightarrow> py_error + 'b" where
  "on_ok r f = (case r of Inl err \<Rightarrow> Inl err | Inr v \<Rightarrow> f v)"

fun py_getitem :: "json \<Rightarrow> ustr \<Rightarrow> py_error + json" where
  "py_getitem (JObj kvs) k = (case map_of kvs k of Some v \<Rightarrow> Inr v | None \<Rightarrow> Inl KeyError)"
| "py_getitem _ k = Inl TypeError"

text \<open>\<open>x[0]\<close>: the first element of a list, the first character of a string.\<close>

fun py_getitem0 :: "json \<Rightarrow> py_error + json" where
  "py_getitem0 (JArr []) = Inl IndexError"
| "py_getitem0 (JArr (x # xs)) = Inr x"
| "py_getitem0 (JStr []) = Inl IndexError"
| "py_getitem0 (JStr (c # cs)) = Inr (JStr [c])"
| "py_getitem0 (JObj kvs) = Inl KeyError"
| "py_getitem0 _ = Inl TypeError"

text \<open>
  \<open>k in x\<close> for a string \<open>k\<close>: a key of a dict, an element of a list, a substring of
  a string; the other values are not containers.
\<close>

fun has_substring :: "ustr \<Rightarrow> ustr \<Rightarrow> bool" where
  "has_substring k [] = (k = [])"
| "has_substring k (c # cs) = (prefix k (c # cs) \<or> has_substring k cs)"

fun py_contains :: "json \<Rightarrow> ustr \<Rightarrow> py_error + bool" where
  "py_contains (JObj kvs) k = Inr (k \<in> set (map fst kvs))"
| "py_contains (JArr xs) k = Inr (JStr k \<in> set xs)"
| "py_contains (JStr s) k = Inr (has_substring k s)"
| "py_contains _ k = Inl TypeError"

text \<open>What a \<open>for\<close> loop over the value visits.\<close>

fun py_iter :: "json \<Rightarrow> py_error + json list" where
  "py_iter (JArr xs) = Inr xs"
| "py_iter (JObj kvs) = Inr (map (\<lambda>kv. JStr (fst kv)) kvs)"
| "py_iter (JStr s) = Inr (map (\<lambda>c. JStr [c]) s)"
| "py_iter _ = Inl TypeError"

fun py_truthy :: "json \<Rightarrow> bool" where
  "py_truthy JNull = False"
| "py_truthy (JBool b) = b"
| "py_truthy (JNum r) = (r \<noteq> 0)"
| "py_truthy JNonFinite = True"
| "py_truthy (JStr s) = (s \<noteq> [])"
| "py_truthy (JArr xs) = (xs \<noteq> [])"
| "py_truthy (JObj kvs) = (kvs \<noteq> [])"

text \<open>\<open>str.join\<close> accepts strings only.\<close>

fun str_items :: "json list \<Rightarrow> py_error + ustr list" where
  "str_items [] = Inr []"
| "str_items (JStr s # xs) = on_ok (str_items xs) (\<lambda>ss. Inr (s # ss))"
| "str_items (_ # xs) = Inl TypeError"

definition join_values :: "ustr \<Rightarrow> json list \<Rightarrow> py_error + ustr" where
  "join_values sep items = on_ok (str_items items) (\<lambda>ss. Inr (py_join sep ss))"

section \<open>The external services\<close>

text \<open>
  The program talks to the document service (one read, one update) and to the completion
  service (one chat request). Their answers are inputs of the model: an environment
  gives, for every request, either the decoded answer or the exception raised. Every
  request made is recorded in a trace. The fixed request headers and the API keys do not
  influence any result and are left out; so is the diagnostic output of \<open>print\<close>.
\<close>

record env =
  notion_get :: "ustr \<Rightarrow> py_error + json"
  groq_chat :: "ustr \<Rightarrow> (ustr \<times> ustr) list \<Rightarrow> py_error + ustr"
  notion_patch :: "ustr \<Rightarrow> json \<Rightarrow> py_error + (int \<times> ustr)"

datatype call =
    HttpGet ustr
  | ChatCompletion ustr "(ustr \<times> ustr) list"
  | HttpPatch ustr json

section \<open>\<open>get_page_content\<close>\<close>

definition k_results :: ustr where "k_results = ustr_of ''results''"
definition k_type :: ustr where "k_type = ustr_of ''type''"
definition k_paragraph :: ustr where "k_paragraph = ustr_of ''paragraph''"
definition k_rich_text :: ustr where "k_rich_text = ustr_of ''rich_text''"
definition k_text :: ustr where "k_text = ustr_of ''text''"
definition k_content :: ustr where "k_content = ustr_of ''content''"

definition blocks_url :: "ustr \<Rightarrow> ustr" where
  "blocks_url page_id =
     ustr_of ''https://api.notion.com/v1/blocks/'' @ page_id @ ustr_of ''/children''"

text \<open>
  The body of the loop: \<open>block_step content block\<close> is the list \<open>content\<close> after the
  iteration for \<open>block\<close>, or the exception the iteration raises.
\<close>

definition block_step :: "json list \<Rightarrow> json \<Rightarrow> py_error + json list" where
  "block_step content block =
     on_ok (py_getitem block k_type) (\<lambda>ty.
       if ty = JStr k_paragraph then
         on_ok (py_getitem block k_paragraph) (\<lambda>para.
         on_ok (py_getitem para k_rich_text) (\<lambda>rich.
           if \<not> py_truthy rich then Inr content
           else
             on_ok (py_getitem0 rich) (\<lambda>first.
             on_ok (py_getitem first k_text) (\<lambda>t.
             on_ok (py_getitem t k_content) (\<lambda>c. Inr (content @ [c]))))))
       else Inr content)"

fun for_blocks :: "json list \<Rightarrow> json list \<Rightarrow> py_error + json list" where
  "for_blocks content [] = Inr content"
| "for_blocks content (block # blocks) =
     (case block_step content block of
        Inl err \<Rightarrow> Inl err
      | Inr content' \<Rightarrow> for_blocks content' blocks)"

text \<open>
  \<open>content_of_response data\<close> is what \<open>get_page_content\<close> computes from the decoded
  response \<open>data\<close>: \<open>None\<close>, or the joined string.
\<close>

definition content_of_response :: "json \<Rightarrow> py_error + ustr option" where
  "content_of_response data =
     on_ok (py_contains data k_results) (\<lambda>present.
       if \<not> present then Inr None
       else
         on_ok (py_getitem data k_results) (\<lambda>results.
         on_ok (py_iter results) (\<lambda>blocks.
         on_ok (for_blocks [] blocks) (\<lambda>content.
         on_ok (join_values [newline] content) (\<lambda>joined. Inr (Some joined))))))"

definition get_page_content :: "env \<Rightarrow> ustr \<Rightarrow> (py_error + ustr option) \<times> call list" where
  "get_page_content e page_id =
     (let url = blocks_url page_id
      in (on_ok (notion_get e url) content_of_response, [HttpGet url]))"

subsection \<open>The shape of a well-formed response\<close>

text \<open>
  The document service answers with a dict whose \<open>results\<close> entry lists typed blocks. A
  block is a dict with a \<open>type\<close>; a paragraph block carries, under \<open>paragraph\<close>, a
  \<open>rich_text\<close> list whose entries expose \<open>text.content\<close>. \<open>classify_block\<close> reads a
  block by this description, without reference to the program: it is \<open>None\<close> for
  anything else. A paragraph with text is classified by the content of its first
  rich-text entry.
\<close>

datatype block_kind = NotParagraph | EmptyParagraph | TextParagraph ustr

fun entry_text :: "json \<Rightarrow> ustr option" where
  "entry_text (JObj ekvs) =
     (case map_of ekvs k_text of
        Some (JObj tkvs) \<Rightarrow>
          (case map_of tkvs k_content of Some (JStr s) \<Rightarrow> Some s | _ \<Rightarrow> None)
      | _ \<Rightarrow> None)"
| "entry_text _ = None"

fun classify_block :: "json \<Rightarrow> block_kind option" where
  "classify_block (JObj kvs) =
     (case map_of kvs k_type of
        None \<Rightarrow> None
      | Some ty \<Rightarrow>
          if ty \<noteq> JStr k_paragraph then Some NotParagraph
          else
            (case map_of kvs k_paragraph of
               Some (JObj pkvs) \<Rightarrow>
                 (case map_of pkvs k_rich_text of
                    Some (JArr []) \<Rightarrow> Some EmptyParagraph
                  | Some (JArr (first # others)) \<Rightarrow> map_option TextParagraph (entry_text first)
                  | _ \<Rightarrow> None)
             | _ \<Rightarrow> None))"
| "classify_block _ = None"

fun block_text :: "json \<Rightarrow> ustr option" where
  "block_text block =
     (case classify_block block of Some (TextParagraph s) \<Rightarrow> Some s | _ \<Rightarrow> None)"

definition paragraph_texts :: "json list \<Rightarrow> ustr list" where
  "paragraph_texts blocks = List.map_filter block_text blocks"

text \<open>
  A response yields no paragraph text when its \<open>results\<close> list holds only blocks that are
  not paragraphs and paragraphs with an empty rich-text list.
\<close>

fun textless_block :: "json \<Rightarrow> bool" where
  "textless_block block =
     (classify_block block = Some NotParagraph \<or> classify_block block = Some EmptyParagraph)"

fun no_paragraph_text :: "json \<Rightarrow> bool" where
  "no_paragraph_text (JObj kvs) =
     (case map_of kvs k_results of
        Some (JArr blocks) \<Rightarrow> list_all textless_block blocks
      | _ \<Rightarrow> False)"
| "no_paragraph_text _ = False"

section \<open>\<open>correct_grammar\<close>\<close>

definition prompt_head :: ustr where
  \<open>prompt_head =
     ustr_of ''\<newline>    '' @
     [36889, 26159, 25105, 30340, 33521, 25991, 30701, 25991, 65292, 35531, 24171, 25105,
      65306] @
     ustr_of ''\<newline>    1'' @
     [65039, 8419] @
     ustr_of '' '' @
     [20462, 27491, 25152, 26377, 25991, 27861, 37679, 35492, 65292, 20006, 36664, 20986,
      28858, 12300] @
     ustr_of ''['' @
     [20462, 27491, 25991] @
     ustr_of ''] '' @
     [20462, 27491, 24460, 30340, 30701, 25991, 12301, 12290] @
     ustr_of ''\<newline>    2'' @
     [65039, 8419] @
     ustr_of '' '' @
     [26681, 25818, 25176, 31119, 32771, 35430, 35413, 20998, 27161, 28310, 65292, 25552,
      20379, 12300] @
     ustr_of ''['' @
     [37679, 35492, 20998, 26512] @
     ustr_of ''] '' @
     [37679, 35492, 20998, 26512, 12301, 12290] @
     ustr_of ''\<newline>    3'' @
     [65039, 8419] @
     ustr_of '' '' @
     [25552, 20379, 12300] @
     ustr_of ''['' @
     [39640, 20998, 24314, 35696] @
     ustr_of ''] '' @
     [22914, 20309, 25552, 21319, 25991, 31456, 21697, 36074, 12301, 20006, 25552, 20986,
      20855, 39636, 25913, 36914, 24314, 35696, 21450, 26356, 33258, 28982, 30340, 35422,
      24409, 25110, 21477, 22411] @
     ustr_of '','' @
     [27599, 20491, 24314, 35696, 33267, 23569, 25552, 20379, 19968, 20491, 20363, 21477,
      12290] @
     ustr_of ''\<newline>    \<newline>    '' @
     [25105, 30340, 25991, 31456, 65306] @
     ustr_of ''\<newline>    ''\<close>

definition prompt_tail :: ustr where
  \<open>prompt_tail =
     ustr_of ''\<newline>    ''\<close>

definition format_error :: ustr where
  \<open>format_error =
     [37679, 35492, 65306] @
     ustr_of ''Groq '' @
     [22238, 25033, 26684, 24335, 30064, 24120]\<close>

definition groq_model :: ustr where
  "groq_model = ustr_of ''mixtral-8x7b-32768''"

definition messages :: "ustr \<Rightarrow> (ustr \<times> ustr) list" where
  "messages text =
     [(ustr_of ''system'', ustr_of ''You are a helpful assistant.''),
      (ustr_of ''user'', prompt_head @ text @ prompt_tail)]"

text \<open>
  \<open>segments content\<close> is \<open>content.strip().split("\n\n")\<close>, the list the source calls
  \<open>gpt_response\<close>.
\<close>

definition segments :: "ustr \<Rightarrow> ustr list" where
  "segments content = py_split [newline, newline] (py_strip content)"

definition correct_grammar ::
  "env \<Rightarrow> ustr \<Rightarrow> (py_error + ustr \<times> ustr \<times> ustr) \<times> call list" where
  "correct_grammar e text =
     (let request = ChatCompletion groq_model (messages text) in
      case groq_chat e groq_model (messages text) of
        Inl err \<Rightarrow> (Inl err, [request])
      | Inr content \<Rightarrow>
          (let gpt_response = segments content in
           if length gpt_response < 3 then (Inr (format_error, [], []), [request])
           else (Inr (gpt_response ! 0, gpt_response ! 1, gpt_response ! 2), [request])))"

text \<open>An environment with fixed answers, for evaluating the model on concrete inputs.\<close>

definition fixed_env :: "json \<Rightarrow> ustr \<Rightarrow> int \<Rightarrow> env" where
  "fixed_env page reply status =
     \<lparr>notion_get = (\<lambda>url. Inr page),
      groq_chat = (\<lambda>model msgs. Inr reply),
      notion_patch = (\<lambda>url body. Inr (status, []))\<rparr>"

text \<open>
  Two lists of blocks: a paragraph with two rich-text entries, a heading, an empty
  paragraph and a second paragraph; and a heading with an empty paragraph.
\<close>

definition example_blocks :: "json list" where
  "example_blocks =
     [JObj [(k_type, JStr k_paragraph),
            (k_paragraph, JObj [(k_rich_text,
               JArr [JObj [(k_text, JObj [(k_content, JStr (ustr_of ''Hello''))])],
                     JObj [(k_text, JObj [(k_content, JStr (ustr_of '' again''))])]])])],
      JObj [(k_type, JStr (ustr_of ''heading_1''))],
      JObj [(k_type, JStr k_paragraph),
            (k_paragraph, JObj [(k_rich_text, JArr [])])],
      JObj [(k_type, JStr k_paragraph),
            (k_paragraph, JObj [(k_rich_text,
               JArr [JObj [(k_text, JObj [(k_content, JStr (ustr_of ''World''))])]])])]]"

definition example_page :: json where
  "example_page =
     JObj [(ustr_of ''object'', JStr (ustr_of ''list'')), (k_results, JArr example_blocks)]"

definition empty_blocks :: "json list" where
  "empty_blocks =
     [JObj [(k_type, JStr (ustr_of ''heading_1''))],
      JObj [(k_type, JStr k_paragraph), (k_paragraph, JObj [(k_rich_text, JArr [])])]]"

section \<open>\<open>clean_text\<close>\<close>

abbreviation lbracket :: nat where
  "lbracket \<equiv> 91"

abbreviation rbracket :: nat where
  "rbracket \<equiv> 93"

text \<open>
  The pattern is an opening bracket, as few characters as possible other than a newline,
  and a closing bracket. \<open>find_close cs\<close> matches the part behind the opening bracket
  at the head of \<open>cs\<close> and returns what follows the match.
\<close>

fun find_close :: "ustr \<Rightarrow> ustr option" where
  "find_close [] = None"
| "find_close (c # cs) =
     (if c = rbracket then Some cs else if c = newline then None else find_close cs)"

lemma find_close_shorter [termination_simp]:
  "find_close cs = Some rest \<Longrightarrow> length rest < Suc (length cs)"
  by (induction cs) (auto split: if_splits)

text \<open>
  \<open>re.sub\<close> with the empty replacement: the leftmost match is removed and the search
  goes on behind it.
\<close>

fun re_sub_brackets :: "ustr \<Rightarrow> ustr" where
  "re_sub_brackets [] = []"
| "re_sub_brackets (c # cs) =
     (if c = lbracket
      then (case find_close cs of
              Some rest \<Rightarrow> re_sub_brackets rest
            | None \<Rightarrow> c # re_sub_brackets cs)
      else c # re_sub_brackets cs)"

definition clean_text :: "ustr \<Rightarrow> ustr" where
  "clean_text text = py_strip (re_sub_brackets text)"

text \<open>
  A bracketed span of \<open>s\<close> is a match of the pattern somewhere in \<open>s\<close>: an opening
  bracket, a closing bracket behind it, and no newline between the two. Brackets that
  enclose a newline are no span in this sense: the pattern does not match them.
  \<open>no_span\<close> decides the absence of a span: behind no opening bracket does the pattern
  match.
\<close>

definition has_span :: "ustr \<Rightarrow> bool" where
  "has_span s \<longleftrightarrow> (\<exists>a m b. s = a @ lbracket # m @ rbracket # b \<and> newline \<notin> set m)"

fun no_span :: "ustr \<Rightarrow> bool" where
  "no_span [] = True"
| "no_span (c # cs) = ((c \<noteq> lbracket \<or> find_close cs = None) \<and> no_span cs)"

text \<open>
  What the cleaning is to achieve, stated without the program. \<open>erased x y\<close>: \<open>y\<close> is
  \<open>x\<close> with its bracketed spans cut out, from the left. A cut takes the first opening
  bracket at which the pattern matches (no span begins in the text \<open>t\<close> before it, which
  is to say that \<open>t\<close> followed by a closing bracket has no span) up to the nearest
  closing bracket (the text \<open>m\<close> between holds neither a closing bracket nor a newline);
  the text before the cut is kept, and the cutting goes on behind it. When no span is
  left, the text stays as it is.
\<close>

inductive erased :: "ustr \<Rightarrow> ustr \<Rightarrow> bool" where
  erased_none: "\<not> has_span t \<Longrightarrow> erased t t"
| erased_cut:
    "\<not> has_span (t @ [rbracket]) \<Longrightarrow> newline \<notin> set m \<Longrightarrow> rbracket \<notin> set m \<Longrightarrow>
     erased rest y \<Longrightarrow> erased (t @ lbracket # m @ rbracket # rest) (t @ y)"

text \<open>
  \<open>trimmed y v\<close>: \<open>v\<close> is \<open>y\<close> without its leading and trailing whitespace.
\<close>

definition trimmed :: "ustr \<Rightarrow> ustr \<Rightarrow> bool" where
  "trimmed y v \<longleftrightarrow>
     (\<exists>l r. y = l @ v @ r \<and> (\<forall>c\<in>set l. is_space c) \<and> (\<forall>c\<in>set r. is_space c)
        \<and> (v = [] \<or> (\<not> is_space (hd v) \<and> \<not> is_space (last v))))"

text \<open>\<open>cleaned x v\<close>: \<open>v\<close> is \<open>x\<close> with the spans cut out and the result trimmed.\<close>

definition cleaned :: "ustr \<Rightarrow> ustr \<Rightarrow> bool" where
  "cleaned x v \<longleftrightarrow> (\<exists>y. erased x y \<and> trimmed y v)"

section \<open>\<open>update_notion_page\<close>\<close>

definition field_corrected :: ustr where
  \<open>field_corrected =
     ustr_of ''GPT '' @
     [20462, 27491, 24460, 30701, 25991]\<close>

definition field_analysis :: ustr where
  \<open>field_analysis =
     [37679, 35492, 20998, 26512] @
     ustr_of '' ''\<close>

definition field_tips :: ustr where
  \<open>field_tips =
     ustr_of ''GPT '' @
     [39640, 20998, 24314, 35696]\<close>

definition rich_text_value :: "ustr \<Rightarrow> json" where
  "rich_text_value s =
     JObj [(k_rich_text, JArr [JObj [(k_text, JObj [(k_content, JStr s)])]])]"

definition notion_data :: "ustr \<Rightarrow> ustr \<Rightarrow> ustr \<Rightarrow> json" where
  "notion_data corrected_text error_analysis high_score_tips =
     JObj [(ustr_of ''properties'',
            JObj [(field_corrected, rich_text_value corrected_text),
                  (field_analysis, rich_text_value error_analysis),
                  (field_tips, rich_text_value high_score_tips)])]"

definition page_url :: "ustr \<Rightarrow> ustr" where
  "page_url row_page_id = ustr_of ''https://api.notion.com/v1/pages/'' @ row_page_id"

definition update_notion_page ::
  "env \<Rightarrow> ustr \<Rightarrow> ustr \<Rightarrow> ustr \<Rightarrow> ustr \<Rightarrow> (py_error + unit) \<times> call list" where
  "update_notion_page e row_page_id corrected_text error_analysis high_score_tips =
     (let body = notion_data (clean_text corrected_text) (clean_text error_analysis)
                   (clean_text high_score_tips);
          url = page_url row_page_id
      in (on_ok (notion_patch e url body) (\<lambda>response. Inr ()), [HttpPatch url body]))"

text \<open>
  Reading a field back from a request body:
  \<open>body["properties"][name]["rich_text"][0]["text"]["content"]\<close>.
\<close>

definition written_field :: "json \<Rightarrow> ustr \<Rightarrow> py_error + json" where
  "written_field body name =
     on_ok (py_getitem body (ustr_of ''properties'')) (\<lambda>props.
     on_ok (py_getitem props name) (\<lambda>field.
     on_ok (py_getitem field k_rich_text) (\<lambda>rich.
     on_ok (py_getitem0 rich) (\<lambda>first.
     on_ok (py_getitem first k_text) (\<lambda>t. py_getitem t k_content)))))"

section \<open>\<open>trigger_python\<close>\<close>

definition missing_id_body :: ustr where
  \<open>missing_id_body =
     [10060] @
     ustr_of '' '' @
     [32570, 23569, 24517, 35201, 30340] @
     ustr_of '' Page ID''\<close>

definition no_content_body :: ustr where
  \<open>no_content_body =
     [10060] @
     ustr_of '' '' @
     [30701, 25991, 24235, 20839, 27794, 26377, 20839, 23481]\<close>

definition success_page :: ustr where
  \<open>success_page =
     ustr_of ''\<newline>    <html>\<newline>    <script>\<newline>        function goToNotion() {\<newline>'' @
     ustr_of ''            window.location.href = "notion://";  // '' @
     [22039, 35430, 38283, 21855] @
     ustr_of '' Notion App\<newline>\<newline>            // '' @
     [24310, 36978] @
     ustr_of '' 3 '' @
     [31186, 24460, 38364, 38281, 32178, 38913, 65292, 30906, 20445, 26377, 26178, 38291,
      25353, 12300, 38283, 21855] @
     ustr_of '' Notion'' @
     [12301] @
     ustr_of ''\<newline>            setTimeout(() => { \<newline>'' @
     ustr_of ''                window.close();  \<newline>'' @
     ustr_of ''            }, 3000);  // 3 '' @
     [31186, 24460, 38364, 38281, 65292, 26178, 38291, 21487, 35519, 25972] @
     ustr_of ''\<newline>        }\<newline>    </script>\<newline>\<newline>    <body>\<newline>        '' @
     [9989] @
     ustr_of '' Flask '' @
     [25209, 25913, 23436, 25104, 65281, 32080, 26524, 24050, 22238, 23531, 21040] @
     ustr_of '' Notion'' @
     [65281] @
     ustr_of ''\<newline>        <br><br>\<newline>'' @
     ustr_of ''        <a id="notion-link" href="notion://" onclick="goToNotion()">'' @
     [128073] @
     ustr_of '' '' @
     [40670, 36889, 35041, 22238] @
     ustr_of '' Notion</a>\<newline>    </body>\<newline>    </html>\<newline>    ''\<close>

text \<open>
  The query string is a list of pairs; \<open>request.args.get(k)\<close> is the first value given
  for \<open>k\<close>, or \<open>None\<close>. The result is the pair of body and status, or the exception
  that leaves the handler, together with the requests made.
\<close>

definition args_get :: "(ustr \<times> ustr) list \<Rightarrow> ustr \<Rightarrow> ustr option" where
  "args_get args k = map_of args k"

fun str_truthy :: "ustr option \<Rightarrow> bool" where
  "str_truthy None = False"
| "str_truthy (Some s) = (s \<noteq> [])"

definition trigger_python ::
  "env \<Rightarrow> (ustr \<times> ustr) list \<Rightarrow> (py_error + ustr \<times> nat) \<times> call list" where
  "trigger_python e args =
     (case (args_get args (ustr_of ''text_page_id''), args_get args (ustr_of ''row_page_id'')) of
        (Some text_page_id, Some row_page_id) \<Rightarrow>
          if text_page_id = [] \<or> row_page_id = [] then (Inr (missing_id_body, 400), [])
          else
            (case get_page_content e text_page_id of
               (Inl err, t1) \<Rightarrow> (Inl err, t1)
             | (Inr content, t1) \<Rightarrow>
                 (case content of
                    None \<Rightarrow> (Inr (no_content_body, 400), t1)
                  | Some text \<Rightarrow>
                      if text = [] then (Inr (no_content_body, 400), t1)
                      else
                        (case correct_grammar e text of
                           (Inl err, t2) \<Rightarrow> (Inl err, t1 @ t2)
                         | (Inr (corrected_text, error_analysis, high_score_tips), t2) \<Rightarrow>
                             (case update_notion_page e row_page_id corrected_text
                                     error_analysis high_score_tips of
                                (Inl err, t3) \<Rightarrow> (Inl err, t1 @ t2 @ t3)
                              | (Inr u, t3) \<Rightarrow> (Inr (success_page, 200), t1 @ t2 @ t3)))))
      | _ \<Rightarrow> (Inr (missing_id_body, 400), []))"

text \<open>A query string that gives both identifiers.\<close>

definition example_args :: "(ustr \<times> ustr) list" where
  "example_args = [(ustr_of ''text_page_id'', ustr_of ''p1''), (ustr_of ''row_page_id'', ustr_of ''r1'')]"

section \<open>Properties of \<open>get_page_content\<close>\<close>

lemma on_ok_simps [simp]:
  "on_ok (Inl err) f = Inl err"
  "on_ok (Inr v) f = f v"
  by (simp_all add: on_ok_def)

lemma entry_text_Some:
  assumes "entry_text first = Some s"
  shows "\<exists>t. py_getitem first k_text = Inr t \<and> py_getitem t k_content = Inr (JStr s)"
  using assms by (cases first) (auto split: option.splits json.splits)

lemma block_step_classified:
  assumes "classify_block block = Some kind"
  shows "block_step content block =
           Inr (case kind of TextParagraph s \<Rightarrow> content @ [JStr s] | _ \<Rightarrow> content)"
proof (cases block)
  case (JObj kvs)
  show ?thesis
  proof (cases "map_of kvs k_type = Some (JStr k_paragraph)")
    case False
    with assms JObj show ?thesis
      by (auto simp: block_step_def split: option.splits if_splits)
  next
    case True
    with assms JObj obtain pkvs rich where
      p: "map_of kvs k_paragraph = Some (JObj pkvs)" and r: "map_of pkvs k_rich_text = Some (JArr rich)"
      by (auto split: option.splits json.splits list.splits)
    show ?thesis
    proof (cases rich)
      case Nil
      with assms JObj True p r show ?thesis
        by (auto simp: block_step_def)
    next
      case (Cons first others)
      with assms JObj True p r obtain s where s: "kind = TextParagraph s" "entry_text first = Some s"
        by auto
      from entry_text_Some[OF s(2)] obtain t where
        "py_getitem first k_text = Inr t" "py_getitem t k_content = Inr (JStr s)" by blast
      with JObj True p r Cons s show ?thesis
        by (simp add: block_step_def)
    qed
  qed
qed (use assms in auto)

lemma for_blocks_classified:
  "\<forall>b\<in>set blocks. classify_block b \<noteq> None \<Longrightarrow>
   for_blocks content blocks = Inr (content @ map JStr (paragraph_texts blocks))"
proof (induction blocks arbitrary: content)
  case Nil
  then show ?case by (simp add: paragraph_texts_def)
next
  case (Cons b blocks)
  then obtain kind where k: "classify_block b = Some kind" by auto
  from Cons have IH: "\<And>c. for_blocks c blocks = Inr (c @ map JStr (paragraph_texts blocks))"
    by simp
  show ?case
    using k by (cases kind) (simp_all add: block_step_classified IH paragraph_texts_def)
qed

lemma str_items_strings: "str_items (map JStr ss) = Inr ss"
  by (induction ss) simp_all

lemma split_scan_no_newline:
  "newline \<notin> set t \<Longrightarrow> split_scan [newline] cur t = [cur @ t]"
  by (induction t arbitrary: cur) auto

lemma split_scan_line:
  "newline \<notin> set t \<Longrightarrow>
   split_scan [newline] cur (t @ newline # rest) = (cur @ t) # split_scan [newline] [] rest"
  by (induction t arbitrary: cur) auto

lemma split_join_lines:
  "ts \<noteq> [] \<Longrightarrow> \<forall>t\<in>set ts. newline \<notin> set t \<Longrightarrow>
   py_split [newline] (py_join [newline] ts) = ts"
proof (induction ts)
  case Nil
  then show ?case by simp
next
  case (Cons x ts)
  show ?case
  proof (cases ts)
    case Nil
    with Cons.prems show ?thesis by (simp add: py_split_def split_scan_no_newline)
  next
    case (Cons y ys)
    with Cons.IH Cons.prems have "split_scan [newline] [] (py_join [newline] (y # ys)) = y # ys"
      by (simp add: py_split_def)
    with Cons Cons.prems show ?thesis
      by (simp add: py_split_def split_scan_line)
  qed
qed

lemma content_of_results:
  assumes "map_of kvs k_results = Some (JArr blocks)"
    and "\<forall>b\<in>set blocks. classify_block b \<noteq> None"
  shows "content_of_response (JObj kvs) = Inr (Some (py_join [newline] (paragraph_texts blocks)))"
proof -
  from assms(1) have "k_results \<in> set (map fst kvs)"
    by (metis map_of_eq_None_iff option.distinct(1) set_map)
  with assms show ?thesis
    by (simp add: content_of_response_def for_blocks_classified join_values_def
        str_items_strings)
qed


lemma keys_distinct:
  "k_type \<noteq> k_paragraph" "k_results \<noteq> ustr_of ''object''" "k_paragraph \<noteq> k_type"
  "ustr_of ''object'' \<noteq> k_results" "ustr_of ''heading_1'' \<noteq> k_paragraph"
  "k_type \<noteq> k_text" "k_text \<noteq> k_type"
  by (simp_all add: k_type_def k_paragraph_def k_results_def k_text_def ustr_of_def)

lemma example_paragraph_texts:
  "paragraph_texts example_blocks = [ustr_of ''Hello'', ustr_of ''World'']"
  by (simp add: example_blocks_def paragraph_texts_def keys_distinct)

lemma example_classified: "\<forall>b\<in>set example_blocks. classify_block b \<noteq> None"
  by (simp add: example_blocks_def keys_distinct)

lemma paragraph_texts_none:
  "\<forall>b\<in>set blocks. classify_block b = Some NotParagraph \<or> classify_block b = Some EmptyParagraph
   \<Longrightarrow> paragraph_texts blocks = []"
  by (induction blocks) (auto simp: paragraph_texts_def)

lemma content_of_results_no_text:
  assumes "map_of kvs k_results = Some (JArr blocks)"
    and "\<forall>b\<in>set blocks. classify_block b = Some NotParagraph \<or> classify_block b = Some EmptyParagraph"
  shows "content_of_response (JObj kvs) = Inr (Some [])"
proof -
  from assms(2) have "\<forall>b\<in>set blocks. classify_block b \<noteq> None" by auto
  with assms show ?thesis by (simp add: content_of_results paragraph_texts_none)
qed

lemma content_of_response_None_iff:
  "content_of_response data = Inr None \<longleftrightarrow> py_contains data k_results = Inr False"
proof (cases "py_contains data k_results")
  case (Inl err)
  then show ?thesis by (simp add: content_of_response_def)
next
  case (Inr present)
  then show ?thesis
    by (cases present) (auto simp: content_of_response_def on_ok_def split: sum.splits)
qed

lemma content_of_no_paragraph_text:
  assumes "no_paragraph_text data"
  shows "content_of_response data = Inr (Some [])"
proof -
  from assms obtain kvs blocks where "data = JObj kvs" "map_of kvs k_results = Some (JArr blocks)"
    "list_all textless_block blocks"
    by (cases data) (auto split: option.splits json.splits)
  then show ?thesis
    using content_of_results_no_text [of kvs blocks] by (simp add: list_all_iff)
qed

lemma empty_blocks_textless: "no_paragraph_text (JObj [(k_results, JArr empty_blocks)])"
  by (simp add: empty_blocks_def keys_distinct)

text \<open>
  A paragraph whose first rich-text entry exposes no \<open>text\<close> (a mention, say) is not
  well-formed in the sense above; the program raises \<open>KeyError\<close> on it.
\<close>

lemma get_page_content_mention_raises:
  "fst (get_page_content
         (fixed_env (JObj [(k_results,
            JArr [JObj [(k_type, JStr k_paragraph),
                        (k_paragraph, JObj [(k_rich_text,
                           JArr [JObj [(k_type, JStr (ustr_of ''mention''))]])])]])]) [] 200)
         page_id) = Inl KeyError"
  by (simp add: get_page_content_def Let_def fixed_env_def content_of_response_def block_step_def
      keys_distinct)

text \<open>
  Claim C3, as stated, counts exactly \<open>N\<close> newline-separated segments. A content may
  hold a newline itself: for one paragraph with such a content the result has two
  segments.
\<close>

theorem get_page_content_newline_counterexample:
  "classify_block
     (JObj [(k_type, JStr k_paragraph),
            (k_paragraph, JObj [(k_rich_text,
               JArr [JObj [(k_text, JObj [(k_content, JStr (ustr_of ''a\<newline>b''))])]])])])
     = Some (TextParagraph (ustr_of ''a\<newline>b''))
   \<and> fst (get_page_content
         (fixed_env (JObj [(k_results,
            JArr [JObj [(k_type, JStr k_paragraph),
                        (k_paragraph, JObj [(k_rich_text,
                           JArr [JObj [(k_text,
                              JObj [(k_content, JStr (ustr_of ''a\<newline>b''))])]])])]])]) [] 200)
         (ustr_of ''p1'')) = Inr (Some (ustr_of ''a\<newline>b''))
   \<and> py_split [newline] (ustr_of ''a\<newline>b'') = [ustr_of ''a'', ustr_of ''b'']"
proof -
  let ?b = "JObj [(k_type, JStr k_paragraph),
            (k_paragraph, JObj [(k_rich_text,
               JArr [JObj [(k_text, JObj [(k_content, JStr (ustr_of ''a\<newline>b''))])]])])]"
  have c: "classify_block ?b = Some (TextParagraph (ustr_of ''a\<newline>b''))"
    by (simp add: keys_distinct)
  have "content_of_response (JObj [(k_results, JArr [?b])])
          = Inr (Some (py_join [newline] (paragraph_texts [?b])))"
    by (rule content_of_results) (simp_all add: keys_distinct)
  moreover have "paragraph_texts [?b] = [ustr_of ''a\<newline>b'']"
    by (simp add: paragraph_texts_def keys_distinct)
  ultimately have g: "fst (get_page_content (fixed_env (JObj [(k_results, JArr [?b])]) [] 200)
      (ustr_of ''p1'')) = Inr (Some (ustr_of ''a\<newline>b''))"
    by (simp add: get_page_content_def Let_def fixed_env_def)
  have s: "py_split [newline] (ustr_of ''a\<newline>b'') = [ustr_of ''a'', ustr_of ''b'']"
    by (simp add: py_split_def ustr_of_def)
  from c g s show ?thesis by simp
qed



text \<open>
  Claim C3, amended. For a response that is a dict whose \<open>results\<close> entry is a list of
  well-formed blocks (each a dict with a \<open>type\<close>; a paragraph carrying a \<open>rich_text\<close>
  list under \<open>paragraph\<close> whose first entry, if there is one, exposes \<open>text.content\<close>
  as a string), of which \<open>N\<close> are paragraphs with a non-empty rich-text list,
  \<open>get_page_content\<close> returns the \<open>N\<close> first-entry contents joined by newlines, in
  the order of the blocks; other blocks and empty paragraphs contribute nothing. When
  \<open>N\<close> is at least one and no content holds a newline itself, the result has exactly
  \<open>N\<close> newline-separated segments, which are these contents.
\<close>

theorem get_page_content_paragraphs:
  assumes "notion_get e (blocks_url page_id) = Inr (JObj kvs)"
    and "map_of kvs k_results = Some (JArr blocks)"
    and "\<forall>b\<in>set blocks. classify_block b \<noteq> None"
  shows "fst (get_page_content e page_id) = Inr (Some (py_join [newline] (paragraph_texts blocks)))
     \<and> paragraph_texts blocks
          = map (\<lambda>b. the (block_text b)) (filter (\<lambda>b. block_text b \<noteq> None) blocks)
     \<and> (paragraph_texts blocks \<noteq> [] \<and> (\<forall>t\<in>set (paragraph_texts blocks). newline \<notin> set t)
          \<longrightarrow> py_split [newline] (py_join [newline] (paragraph_texts blocks))
                = paragraph_texts blocks)"
proof -
  have "fst (get_page_content e page_id) = Inr (Some (py_join [newline] (paragraph_texts blocks)))"
    using assms by (simp add: get_page_content_def Let_def content_of_results)
  moreover have "paragraph_texts blocks
      = map (\<lambda>b. the (block_text b)) (filter (\<lambda>b. block_text b \<noteq> None) blocks)"
    by (simp add: paragraph_texts_def map_filter_def comp_def)
  ultimately show ?thesis
    by (simp add: split_join_lines)
qed

theorem get_page_content_paragraphs_witness:
  "fst (get_page_content (fixed_env example_page [] 200) (ustr_of ''p1''))
     = Inr (Some (ustr_of ''Hello\<newline>World''))
   \<and> py_split [newline] (ustr_of ''Hello\<newline>World'') = [ustr_of ''Hello'', ustr_of ''World'']"
proof -
  have 1: "notion_get (fixed_env example_page [] 200) (blocks_url (ustr_of ''p1''))
           = Inr (JObj [(ustr_of ''object'', JStr (ustr_of ''list'')), (k_results, JArr example_blocks)])"
    by (simp add: fixed_env_def example_page_def)
  have 2: "map_of [(ustr_of ''object'', JStr (ustr_of ''list'')), (k_results, JArr example_blocks)] k_results
           = Some (JArr example_blocks)"
    by (simp add: keys_distinct)
  have 3: "ustr_of ''Hello'' @ newline # ustr_of ''World'' = ustr_of ''Hello\<newline>World''"
    by (simp add: ustr_of_def)
  have 4: "newline \<notin> set (ustr_of ''Hello'')" "newline \<notin> set (ustr_of ''World'')"
    by (simp_all add: ustr_of_def)
  show ?thesis
    using get_page_content_paragraphs [OF 1 2 example_classified] 4
    by (simp add: example_paragraph_texts 3)
qed


text \<open>
  Claim C4, as stated, asks for the absent value also when the results list yields no
  paragraph text. For an empty results list the function returns the empty string.
\<close>

theorem get_page_content_empty_results_counterexample:
  "fst (get_page_content (fixed_env (JObj [(k_results, JArr [])]) [] 200) (ustr_of ''p1''))
     = Inr (Some [])
   \<and> fst (get_page_content (fixed_env (JObj [(k_results, JArr [])]) [] 200) (ustr_of ''p1''))
     \<noteq> Inr None"
  by (simp add: get_page_content_def Let_def fixed_env_def content_of_response_def join_values_def)

text \<open>
  Claim C4, amended. \<open>get_page_content\<close> returns the absent value when the response
  lacks the \<open>results\<close> key and the empty string when the results list yields no
  paragraph text; both are falsy, which is what the caller tests.
\<close>

theorem get_page_content_no_content:
  assumes "notion_get e (blocks_url page_id) = Inr data"
  shows "(py_contains data k_results = Inr False \<longrightarrow> fst (get_page_content e page_id) = Inr None)
     \<and> (no_paragraph_text data \<longrightarrow> fst (get_page_content e page_id) = Inr (Some []))
     \<and> (py_contains data k_results = Inr False \<or> no_paragraph_text data
          \<longrightarrow> (\<exists>c. fst (get_page_content e page_id) = Inr c \<and> \<not> str_truthy c))"
proof -
  have r: "fst (get_page_content e page_id) = content_of_response data"
    using assms by (simp add: get_page_content_def Let_def)
  have a: "py_contains data k_results = Inr False \<longrightarrow> content_of_response data = Inr None"
    by (simp add: content_of_response_None_iff)
  have b: "no_paragraph_text data \<longrightarrow> content_of_response data = Inr (Some [])"
    by (simp add: content_of_no_paragraph_text)
  from a b have "py_contains data k_results = Inr False \<or> no_paragraph_text data
      \<longrightarrow> (\<exists>c. content_of_response data = Inr c \<and> \<not> str_truthy c)"
    by auto
  with a b r show ?thesis by simp
qed

theorem get_page_content_no_content_witness:
  "fst (get_page_content (fixed_env (JObj [(ustr_of ''object'', JStr (ustr_of ''error''))]) [] 200)
          (ustr_of ''p1'')) = Inr None
   \<and> fst (get_page_content (fixed_env (JObj [(k_results, JArr empty_blocks)]) [] 200)
          (ustr_of ''p1'')) = Inr (Some [])"
proof -
  have 1: "notion_get (fixed_env (JObj [(ustr_of ''object'', JStr (ustr_of ''error''))]) [] 200)
             (blocks_url (ustr_of ''p1'')) = Inr (JObj [(ustr_of ''object'', JStr (ustr_of ''error''))])"
    by (simp add: fixed_env_def)
  have 2: "py_contains (JObj [(ustr_of ''object'', JStr (ustr_of ''error''))]) k_results = Inr False"
    by (simp add: keys_distinct)
  have 3: "notion_get (fixed_env (JObj [(k_results, JArr empty_blocks)]) [] 200)
             (blocks_url (ustr_of ''p1'')) = Inr (JObj [(k_results, JArr empty_blocks)])"
    by (simp add: fixed_env_def)
  show ?thesis
    using get_page_content_no_content [OF 1] get_page_content_no_content [OF 3] 2
      empty_blocks_textless
    by blast
qed

text \<open>
  Claim C10. \<open>get_page_content\<close> returns \<open>None\<close> exactly when the response lacks the
  \<open>results\<close> key; for a results list without paragraph text it returns the empty
  string, a different value.
\<close>

theorem get_page_content_none_only_without_results:
  assumes "notion_get e (blocks_url page_id) = Inr data"
  shows "(fst (get_page_content e page_id) = Inr None \<longleftrightarrow> py_contains data k_results = Inr False)
     \<and> (no_paragraph_text data \<longrightarrow>
          fst (get_page_content e page_id) = Inr (Some [])
          \<and> fst (get_page_content e page_id) \<noteq> Inr None)"
  using assms
  by (simp add: get_page_content_def Let_def content_of_response_None_iff
      content_of_no_paragraph_text)

theorem get_page_content_none_only_without_results_witness:
  "fst (get_page_content (fixed_env (JObj [(k_results, JArr empty_blocks)]) [] 200)
          (ustr_of ''p1'')) = Inr (Some [])
   \<and> fst (get_page_content (fixed_env (JArr [JStr k_type]) [] 200) (ustr_of ''p1'')) = Inr None"
proof -
  have 1: "notion_get (fixed_env (JObj [(k_results, JArr empty_blocks)]) [] 200)
             (blocks_url (ustr_of ''p1'')) = Inr (JObj [(k_results, JArr empty_blocks)])"
    by (simp add: fixed_env_def)
  have 3: "notion_get (fixed_env (JArr [JStr k_type]) [] 200) (blocks_url (ustr_of ''p1''))
             = Inr (JArr [JStr k_type])"
    by (simp add: fixed_env_def)
  have 4: "py_contains (JArr [JStr k_type]) k_results = Inr False"
    by (simp add: k_type_def k_results_def ustr_of_def)
  show ?thesis
    using get_page_content_none_only_without_results [OF 1]
      get_page_content_none_only_without_results [OF 3] 4 empty_blocks_textless
    by blast
qed

section \<open>Properties of \<open>correct_grammar\<close>\<close>

lemma segments_example_four:
  "segments (ustr_of '' A\<newline>\<newline>B\<newline>\<newline>C\<newline>\<newline>D\<newline>'')
     = [ustr_of ''A'', ustr_of ''B'', ustr_of ''C'', ustr_of ''D'']"
  by (simp add: segments_def py_split_def py_strip_def is_space_def ustr_of_def)

lemma segments_example_two:
  "segments (ustr_of ''A\<newline>\<newline>B'') = [ustr_of ''A'', ustr_of ''B'']"
  by (simp add: segments_def py_split_def py_strip_def is_space_def ustr_of_def)

text \<open>
  Claim C1. When the stripped reply splits on the blank-line delimiter into at least
  three segments, \<open>correct_grammar\<close> returns the first three segments, by position and
  unchanged; later segments are dropped.
\<close>

theorem correct_grammar_first_three:
  assumes "groq_chat e groq_model (messages text) = Inr reply"
    and "3 \<le> length (segments reply)"
  shows "\<exists>a b c. fst (correct_grammar e text) = Inr (a, b, c)
           \<and> [a, b, c] = take 3 (segments reply)"
proof -
  obtain s0 s1 s2 more where segs: "segments reply = s0 # s1 # s2 # more"
    using assms(2) by (auto simp: numeral_3_eq_3 Suc_le_length_iff)
  have "fst (correct_grammar e text) = Inr (s0, s1, s2)"
    using assms(1) segs by (simp add: correct_grammar_def)
  then show ?thesis using segs by simp
qed

theorem correct_grammar_first_three_witness:
  "fst (correct_grammar
      (fixed_env JNull (ustr_of '' A\<newline>\<newline>B\<newline>\<newline>C\<newline>\<newline>D\<newline>'') 200) [])
     = Inr (ustr_of ''A'', ustr_of ''B'', ustr_of ''C'')"
  using correct_grammar_first_three
    [of "fixed_env JNull (ustr_of '' A\<newline>\<newline>B\<newline>\<newline>C\<newline>\<newline>D\<newline>'') 200" "[]"
        "ustr_of '' A\<newline>\<newline>B\<newline>\<newline>C\<newline>\<newline>D\<newline>''"]
  by (simp add: segments_example_four fixed_env_def)

text \<open>
  Claim C2. When the stripped reply splits into fewer than three segments,
  \<open>correct_grammar\<close> raises nothing and returns the fixed triple of the diagnostic
  string and two empty strings, whatever the segments were.
\<close>

theorem correct_grammar_too_few:
  assumes "groq_chat e groq_model (messages text) = Inr reply"
    and "length (segments reply) < 3"
  shows "fst (correct_grammar e text) = Inr (format_error, [], [])"
  using assms by (simp add: correct_grammar_def)

theorem correct_grammar_too_few_witness:
  "fst (correct_grammar (fixed_env JNull (ustr_of ''A\<newline>\<newline>B'') 200) [])
     = Inr (format_error, [], [])"
  using correct_grammar_too_few
    [of "fixed_env JNull (ustr_of ''A\<newline>\<newline>B'') 200" "[]" "ustr_of ''A\<newline>\<newline>B''"]
  by (simp add: segments_example_two fixed_env_def)

lemma segments_example_one: "segments (ustr_of ''  only one  '') = [ustr_of ''only one'']"
  by (simp add: segments_def py_split_def py_strip_def is_space_def ustr_of_def)

text \<open>
  Claim C5, as stated, asks that all three fields hold the diagnostic placeholder. With
  a reply of two segments only the first field holds it; the second and third are empty
  strings, which differ from the placeholder.
\<close>

theorem malformed_reply_counterexample:
  "fst (correct_grammar (fixed_env JNull (ustr_of ''A\<newline>\<newline>B'') 200) [])
     = Inr (format_error, [], [])
   \<and> format_error \<noteq> []"
  by (simp add: correct_grammar_def segments_example_two fixed_env_def format_error_def)

text \<open>
  Claim C5, amended. Whenever the reply splits into fewer than three segments the
  triple is one fixed value, the same for every such reply: the diagnostic placeholder
  in the first field and the empty string in the other two. No field keeps text of the
  reply.
\<close>

theorem malformed_reply_fixed_triple:
  assumes "groq_chat e1 groq_model (messages t1) = Inr r1" and "length (segments r1) < 3"
    and "groq_chat e2 groq_model (messages t2) = Inr r2" and "length (segments r2) < 3"
  shows "fst (correct_grammar e1 t1) = fst (correct_grammar e2 t2)
         \<and> fst (correct_grammar e1 t1) = Inr (format_error, [], [])"
  using assms by (simp add: correct_grammar_def)

theorem malformed_reply_fixed_triple_witness:
  "fst (correct_grammar (fixed_env JNull (ustr_of ''A\<newline>\<newline>B'') 200) [])
     = fst (correct_grammar (fixed_env JNull (ustr_of ''  only one  '') 500) (ustr_of ''essay''))
   \<and> fst (correct_grammar (fixed_env JNull (ustr_of ''A\<newline>\<newline>B'') 200) [])
     = Inr (format_error, [], [])"
  by (rule malformed_reply_fixed_triple
      [of _ _ "ustr_of ''A\<newline>\<newline>B''" _ _ "ustr_of ''  only one  ''"])
    (simp_all add: segments_example_two segments_example_one fixed_env_def)

section \<open>Properties of \<open>clean_text\<close>\<close>

lemma find_close_span:
  "newline \<notin> set m \<Longrightarrow> find_close (m @ rbracket # b) \<noteq> None"
  by (induction m) auto

lemma find_close_Some:
  "find_close cs = Some rest \<Longrightarrow> \<exists>m. cs = m @ rbracket # rest \<and> newline \<notin> set m"
proof (induction cs)
  case Nil
  then show ?case by simp
next
  case (Cons c cs)
  show ?case
  proof (cases "c = rbracket")
    case True
    with Cons.prems have "c # cs = [] @ rbracket # rest" by simp
    then show ?thesis by (metis empty_iff list.set(1))
  next
    case False
    with Cons.prems have "c \<noteq> newline" and "find_close cs = Some rest"
      by (auto split: if_splits)
    with Cons.IH obtain m where "cs = m @ rbracket # rest" "newline \<notin> set m" by blast
    with \<open>c \<noteq> newline\<close> have "c # cs = (c # m) @ rbracket # rest \<and> newline \<notin> set (c # m)"
      by simp
    then show ?thesis by blast
  qed
qed

lemma find_close_None_iff:
  "find_close cs = None \<longleftrightarrow> \<not> (\<exists>m b. cs = m @ rbracket # b \<and> newline \<notin> set m)"
proof (cases "find_close cs")
  case None
  then show ?thesis using find_close_span by blast
next
  case (Some rest)
  then show ?thesis using find_close_Some by fastforce
qed

lemma no_span_iff:
  "no_span x \<longleftrightarrow> \<not> (\<exists>a m b. x = a @ lbracket # m @ rbracket # b \<and> newline \<notin> set m)"
proof (induction x)
  case Nil
  then show ?case by simp
next
  case (Cons c x)
  have "(\<exists>a m b. c # x = a @ lbracket # m @ rbracket # b \<and> newline \<notin> set m) \<longleftrightarrow>
        (c = lbracket \<and> (\<exists>m b. x = m @ rbracket # b \<and> newline \<notin> set m)) \<or>
        (\<exists>a m b. x = a @ lbracket # m @ rbracket # b \<and> newline \<notin> set m)"
    (is "?L \<longleftrightarrow> ?A \<or> ?B")
  proof
    assume ?L
    then obtain a m b where eq: "c # x = a @ lbracket # m @ rbracket # b" and nl: "newline \<notin> set m"
      by blast
    show "?A \<or> ?B"
    proof (cases a)
      case Nil
      with eq nl show ?thesis by auto
    next
      case (Cons a0 a')
      with eq have "x = a' @ lbracket # m @ rbracket # b" by simp
      with nl show ?thesis by blast
    qed
  next
    assume "?A \<or> ?B"
    then show ?L
    proof
      assume ?A
      then obtain m b where "c # x = [] @ lbracket # m @ rbracket # b" "newline \<notin> set m"
        by auto
      then show ?L by blast
    next
      assume ?B
      then obtain a m b where "c # x = (c # a) @ lbracket # m @ rbracket # b" "newline \<notin> set m"
        by auto
      then show ?L by blast
    qed
  qed
  with Cons.IH show ?case by (auto simp: find_close_None_iff)
qed

lemma re_sub_no_span: "no_span x \<Longrightarrow> re_sub_brackets x = x"
  by (induction x) auto

lemma find_close_re_sub:
  "find_close cs = None \<Longrightarrow> find_close (re_sub_brackets cs) = None"
  by (induction cs rule: re_sub_brackets.induct) (auto split: if_splits option.splits)

lemma no_span_re_sub: "no_span (re_sub_brackets x)"
  by (induction x rule: re_sub_brackets.induct) (auto split: option.splits simp: find_close_re_sub)

lemma find_close_append: "find_close (a @ b) = None \<Longrightarrow> find_close a = None"
  by (induction a) (auto split: if_splits)

lemma no_span_append: "no_span (a @ b) \<Longrightarrow> no_span a \<and> no_span b"
  by (induction a) (auto dest: find_close_append)

lemma no_span_dropWhile: "no_span x \<Longrightarrow> no_span (dropWhile P x)"
  by (metis no_span_append takeWhile_dropWhile_id)

lemma rstrip_prefix: "\<exists>b. x = rev (dropWhile P (rev x)) @ b"
  by (metis rev_append rev_rev_ident takeWhile_dropWhile_id)

lemma no_span_strip: "no_span x \<Longrightarrow> no_span (py_strip x)"
  unfolding py_strip_def
  by (metis no_span_append no_span_dropWhile rstrip_prefix)


lemma dropWhile_rstrip:
  assumes "dropWhile P t = t"
  shows "dropWhile P (rev (dropWhile Q (rev t))) = rev (dropWhile Q (rev t))"
proof -
  define u where "u = rev (dropWhile Q (rev t))"
  obtain b where t: "t = u @ b" unfolding u_def using rstrip_prefix by blast
  have "dropWhile P u = u"
  proof (cases u)
    case Nil
    then show ?thesis by simp
  next
    case (Cons c cs)
    with t have "hd t = c" by simp
    moreover from Cons t have "t \<noteq> []" by simp
    ultimately have "\<not> P c" using assms by (auto simp: dropWhile_eq_self_iff)
    with Cons show ?thesis by simp
  qed
  then show ?thesis by (simp add: u_def)
qed

lemma strip_left_fixed:
  "dropWhile P (rev (dropWhile P (rev (dropWhile P s)))) = rev (dropWhile P (rev (dropWhile P s)))"
  by (rule dropWhile_rstrip) (rule dropWhile_idem)

lemma py_strip_idem: "py_strip (py_strip s) = py_strip s"
  by (simp add: py_strip_def strip_left_fixed)

lemma has_span_code: "has_span s \<longleftrightarrow> \<not> no_span s"
  by (simp add: has_span_def no_span_iff)

lemma clean_text_no_span: "\<not> has_span (clean_text x)"
  by (simp add: has_span_code clean_text_def no_span_strip no_span_re_sub)

lemma clean_text_example:
  "clean_text (ustr_of '' [a\<newline>b] [[x]y] [] [q '') = ustr_of ''[a\<newline>b] y]  [q''"
  by (simp add: clean_text_def py_strip_def is_space_def ustr_of_def)

lemma find_close_exact:
  "newline \<notin> set m \<Longrightarrow> rbracket \<notin> set m \<Longrightarrow> find_close (m @ rbracket # rest) = Some rest"
  by (induction m) auto

lemma find_close_Some_exact:
  "find_close cs = Some rest \<Longrightarrow>
   \<exists>m. cs = m @ rbracket # rest \<and> newline \<notin> set m \<and> rbracket \<notin> set m"
proof (induction cs)
  case Nil
  then show ?case by simp
next
  case (Cons c cs)
  show ?case
  proof (cases "c = rbracket")
    case True
    with Cons.prems have "c # cs = [] @ rbracket # rest \<and> newline \<notin> set [] \<and> rbracket \<notin> set []"
      by simp
    then show ?thesis by blast
  next
    case False
    with Cons.prems have "c \<noteq> newline" and "find_close cs = Some rest"
      by (auto split: if_splits)
    with Cons.IH obtain m where "cs = m @ rbracket # rest" "newline \<notin> set m" "rbracket \<notin> set m"
      by blast
    with \<open>c \<noteq> newline\<close> False
    have "c # cs = (c # m) @ rbracket # rest \<and> newline \<notin> set (c # m) \<and> rbracket \<notin> set (c # m)"
      by simp
    then show ?thesis by blast
  qed
qed

lemma find_close_before_match:
  "find_close (t @ lbracket # m @ rbracket # rest) = None \<Longrightarrow> newline \<notin> set m \<Longrightarrow>
   rbracket \<notin> set m \<Longrightarrow> find_close (t @ [rbracket]) = None"
  by (induction t) (auto simp: find_close_exact split: if_splits)

lemma find_close_line_closed:
  "find_close (t @ [rbracket]) = None \<Longrightarrow> find_close (t @ s) = None"
  by (induction t) (auto split: if_splits)

lemma erased_Cons:
  assumes "erased cs y" and "c \<noteq> lbracket \<or> find_close cs = None"
  shows "erased (c # cs) (c # y)"
  using assms
proof (cases rule: erased.cases)
  case erased_none
  with assms(2) have "\<not> has_span (c # cs)" by (auto simp: has_span_code)
  with erased_none show ?thesis by (simp add: erased.erased_none)
next
  case (erased_cut t m rest y')
  have "c \<noteq> lbracket \<or> find_close (t @ [rbracket]) = None"
    using assms(2) erased_cut by (auto dest: find_close_before_match)
  with erased_cut have "\<not> has_span ((c # t) @ [rbracket])" by (auto simp: has_span_code)
  from erased.erased_cut [OF this erased_cut(4,5,6)] erased_cut show ?thesis by simp
qed

lemma erased_re_sub: "erased x (re_sub_brackets x)"
proof (induction x rule: re_sub_brackets.induct)
  case 1
  show ?case by (simp add: erased_none has_span_code)
next
  case (2 c cs)
  show ?case
  proof (cases "c = lbracket")
    case False
    with 2 show ?thesis by (simp add: erased_Cons)
  next
    case True
    show ?thesis
    proof (cases "find_close cs")
      case None
      with True 2 show ?thesis by (simp add: erased_Cons)
    next
      case (Some rest)
      then obtain m where m: "cs = m @ rbracket # rest" "newline \<notin> set m" "rbracket \<notin> set m"
        using find_close_Some_exact by blast
      have "\<not> has_span ([] @ [rbracket])" by (simp add: has_span_code)
      moreover from 2 True Some have "erased rest (re_sub_brackets rest)" by simp
      ultimately have "erased ([] @ lbracket # m @ rbracket # rest) ([] @ re_sub_brackets rest)"
        using m by (intro erased_cut)
      with True Some m show ?thesis by simp
    qed
  qed
qed

lemma re_sub_cut:
  "\<not> has_span (t @ [rbracket]) \<Longrightarrow> newline \<notin> set m \<Longrightarrow> rbracket \<notin> set m \<Longrightarrow>
   re_sub_brackets (t @ lbracket # m @ rbracket # rest) = t @ re_sub_brackets rest"
proof (induction t)
  case Nil
  then show ?case by (simp add: find_close_exact)
next
  case (Cons c t)
  then have "c \<noteq> lbracket \<or> find_close (t @ [rbracket]) = None" and "\<not> has_span (t @ [rbracket])"
    by (auto simp: has_span_code)
  with Cons show ?case
    by (auto simp: find_close_line_closed)
qed

lemma erased_unique: "erased x y \<Longrightarrow> y = re_sub_brackets x"
  by (induction rule: erased.induct) (simp_all add: re_sub_cut re_sub_no_span has_span_code)

lemma trimmed_strip: "trimmed y (py_strip y)"
proof -
  let ?d = "dropWhile is_space y"
  let ?v = "py_strip y"
  let ?l = "takeWhile is_space y"
  let ?r = "rev (takeWhile is_space (rev ?d))"
  have "?d = ?v @ ?r"
    unfolding py_strip_def by (metis rev_append rev_rev_ident takeWhile_dropWhile_id)
  then have "y = ?l @ ?v @ ?r" by (metis takeWhile_dropWhile_id)
  moreover have "\<forall>c\<in>set ?l. is_space c" by (auto dest: set_takeWhileD)
  moreover have "\<forall>c\<in>set ?r. is_space c" by (auto dest: set_takeWhileD)
  moreover have "?v = [] \<or> (\<not> is_space (hd ?v) \<and> \<not> is_space (last ?v))"
  proof (cases "?v = []")
    case False
    have "dropWhile is_space ?v = ?v" unfolding py_strip_def by (rule strip_left_fixed)
    with False have "\<not> is_space (hd ?v)" by (simp add: dropWhile_eq_self_iff)
    moreover have "rev ?v = dropWhile is_space (rev ?d)" by (simp add: py_strip_def)
    with False have "\<not> is_space (hd (rev ?v))" by (metis hd_dropWhile rev_is_Nil_conv)
    with False have "\<not> is_space (last ?v)" by (simp add: hd_rev)
    ultimately show ?thesis by simp
  qed simp
  ultimately show ?thesis unfolding trimmed_def by blast
qed

lemma trimmed_unique: "trimmed y v \<Longrightarrow> v = py_strip y"
proof -
  assume "trimmed y v"
  then obtain l r where y: "y = l @ v @ r" and l: "\<forall>c\<in>set l. is_space c"
    and r: "\<forall>c\<in>set r. is_space c"
    and v: "v = [] \<or> (\<not> is_space (hd v) \<and> \<not> is_space (last v))"
    unfolding trimmed_def by blast
  show ?thesis
  proof (cases "v = []")
    case True
    with y l r have "\<forall>c\<in>set y. is_space c" by auto
    then have "dropWhile is_space y = []" by (simp only: dropWhile_eq_Nil_conv)
    then have "py_strip y = []" by (simp only: py_strip_def rev.simps dropWhile.simps)
    with True show ?thesis by simp
  next
    case False
    with v have h: "\<not> is_space (hd v)" and t: "\<not> is_space (last v)" by auto
    from l have "dropWhile is_space y = dropWhile is_space (v @ r)"
      unfolding y by (intro dropWhile_append2) auto
    also from False h have "\<dots> = v @ r" by (cases v) auto
    finally have d: "dropWhile is_space y = v @ r" .
    from r have "dropWhile is_space (rev r @ rev v) = dropWhile is_space (rev v)"
      by (intro dropWhile_append2) auto
    also from False t have "\<dots> = rev v"
      by (simp add: dropWhile_eq_self_iff hd_rev)
    finally show ?thesis by (simp add: py_strip_def d)
  qed
qed

lemma cleaned_clean_text: "cleaned x (clean_text x)"
  unfolding cleaned_def clean_text_def using erased_re_sub trimmed_strip by blast

lemma cleaned_unique: "cleaned x v \<Longrightarrow> v = clean_text x"
  unfolding cleaned_def clean_text_def using erased_unique trimmed_unique by blast

text \<open>
  Claim C9. \<open>clean_text\<close> is idempotent, and on an input without a bracketed span it
  only strips the leading and trailing whitespace.
\<close>

theorem clean_text_idempotent:
  "clean_text (clean_text x) = clean_text x
   \<and> (\<not> has_span x \<longrightarrow> clean_text x = py_strip x)"
proof -
  have "no_span (py_strip (re_sub_brackets x))"
    by (simp add: no_span_strip no_span_re_sub)
  then have "re_sub_brackets (clean_text x) = clean_text x"
    by (simp add: clean_text_def re_sub_no_span)
  then have "clean_text (clean_text x) = py_strip (clean_text x)"
    by (simp add: clean_text_def)
  then have idem: "clean_text (clean_text x) = clean_text x"
    by (simp add: clean_text_def py_strip_idem)
  have "\<not> has_span x \<longrightarrow> clean_text x = py_strip x"
    by (simp add: has_span_code clean_text_def re_sub_no_span)
  with idem show ?thesis by simp
qed

theorem clean_text_idempotent_witness:
  "\<not> has_span (ustr_of '' a]b[c '')
   \<and> clean_text (ustr_of '' a]b[c '') = ustr_of ''a]b[c''
   \<and> clean_text (clean_text (ustr_of '' [x] y '')) = clean_text (ustr_of '' [x] y '')"
  using clean_text_idempotent [of "ustr_of '' a]b[c ''"]
    clean_text_idempotent [of "ustr_of '' [x] y ''"]
  by (simp add: has_span_code py_strip_def is_space_def ustr_of_def)

section \<open>Properties of \<open>update_notion_page\<close>\<close>

lemma field_names_distinct:
  "field_corrected \<noteq> field_analysis" "field_corrected \<noteq> field_tips"
  "field_analysis \<noteq> field_tips"
  by (simp_all add: field_corrected_def field_analysis_def field_tips_def ustr_of_def)

lemma written_field_notion_data:
  "written_field (notion_data x y z) field_corrected = Inr (JStr x)"
  "written_field (notion_data x y z) field_analysis = Inr (JStr y)"
  "written_field (notion_data x y z) field_tips = Inr (JStr z)"
  using field_names_distinct
  by (auto simp add: written_field_def notion_data_def rich_text_value_def on_ok_def)

lemma clean_text_stripped: "py_strip (clean_text x) = clean_text x"
  by (simp add: clean_text_def py_strip_idem)

lemma clean_text_examples:
  "clean_text (ustr_of '' [label] Hello [x] there '') = ustr_of ''Hello  there''"
  "clean_text (ustr_of ''[note\<newline>more] x'') = ustr_of ''[note\<newline>more] x''"
  "clean_text [] = []"
  by (simp_all add: clean_text_def py_strip_def is_space_def ustr_of_def)


text \<open>
  Claim C8, as stated, has every bracketed span removed from what is written. The
  pattern does not match across a newline: brackets that enclose a newline stay, and
  this input is written as it is.
\<close>

theorem update_notion_page_newline_span_counterexample:
  "snd (update_notion_page (fixed_env JNull [] 200) (ustr_of ''r1'')
          (ustr_of ''[note\<newline>more] x'') [] []) =
     [HttpPatch (page_url (ustr_of ''r1'')) (notion_data (ustr_of ''[note\<newline>more] x'') [] [])]
   \<and> written_field (notion_data (ustr_of ''[note\<newline>more] x'') [] []) field_corrected
       = Inr (JStr (ustr_of ''[note\<newline>more] x''))
   \<and> ustr_of ''[note\<newline>more] x''
       = lbracket # ustr_of ''note\<newline>more'' @ rbracket # ustr_of '' x''"
  by (simp add: update_notion_page_def Let_def clean_text_examples written_field_notion_data)
    (simp add: ustr_of_def)


lemma update_notion_page_trace:
  "snd (update_notion_page e row_page_id a b c) =
     [HttpPatch (ustr_of ''https://api.notion.com/v1/pages/'' @ row_page_id)
        (JObj [(ustr_of ''properties'',
             JObj [(ustr_of ''GPT '' @ [20462, 27491, 24460, 30701, 25991],
                    JObj [(ustr_of ''rich_text'',
                           JArr [JObj [(ustr_of ''text'', JObj [(ustr_of ''content'', JStr (clean_text a))])]])]),
                   ([37679, 35492, 20998, 26512] @ ustr_of '' '',
                    JObj [(ustr_of ''rich_text'',
                           JArr [JObj [(ustr_of ''text'', JObj [(ustr_of ''content'', JStr (clean_text b))])]])]),
                   (ustr_of ''GPT '' @ [39640, 20998, 24314, 35696],
                    JObj [(ustr_of ''rich_text'',
                           JArr [JObj [(ustr_of ''text'', JObj [(ustr_of ''content'', JStr (clean_text c))])]])])])])]"
  by (simp add: update_notion_page_def Let_def page_url_def notion_data_def rich_text_value_def
      field_corrected_def field_analysis_def field_tips_def k_rich_text_def k_text_def
      k_content_def)


text \<open>
  Claim C8, amended. For all three inputs \<open>update_notion_page\<close> issues exactly one
  update request, to the page of the row, whose body holds the three fixed fields and
  nothing else. Each field holds the cleaned input: the bracketed spans that lie within
  one line are cut out, leftmost first and each up to the nearest closing bracket, the
  text outside them is kept, and the surrounding whitespace is trimmed. The cleaned value
  is the only value with this property, and it is the only value written.
\<close>

theorem update_notion_page_writes_cleaned:
  "snd (update_notion_page e row_page_id a b c) =
     [HttpPatch (ustr_of ''https://api.notion.com/v1/pages/'' @ row_page_id)
        (JObj [(ustr_of ''properties'',
             JObj [(ustr_of ''GPT '' @ [20462, 27491, 24460, 30701, 25991],
                    JObj [(ustr_of ''rich_text'',
                           JArr [JObj [(ustr_of ''text'', JObj [(ustr_of ''content'', JStr (clean_text a))])]])]),
                   ([37679, 35492, 20998, 26512] @ ustr_of '' '',
                    JObj [(ustr_of ''rich_text'',
                           JArr [JObj [(ustr_of ''text'', JObj [(ustr_of ''content'', JStr (clean_text b))])]])]),
                   (ustr_of ''GPT '' @ [39640, 20998, 24314, 35696],
                    JObj [(ustr_of ''rich_text'',
                           JArr [JObj [(ustr_of ''text'', JObj [(ustr_of ''content'', JStr (clean_text c))])]])])])])]
   \<and> cleaned a (clean_text a) \<and> (\<forall>v. cleaned a v \<longrightarrow> v = clean_text a)
   \<and> cleaned b (clean_text b) \<and> (\<forall>v. cleaned b v \<longrightarrow> v = clean_text b)
   \<and> cleaned c (clean_text c) \<and> (\<forall>v. cleaned c v \<longrightarrow> v = clean_text c)"
  using update_notion_page_trace [of e row_page_id a b c]
  by (simp add: cleaned_clean_text cleaned_unique)


theorem update_notion_page_writes_cleaned_witness:
  "snd (update_notion_page (fixed_env JNull [] 200) (ustr_of ''r1'')
          (ustr_of '' [label] Hello [x] there '') (ustr_of ''[note\<newline>more] x'') []) =
     [HttpPatch (ustr_of ''https://api.notion.com/v1/pages/'' @ ustr_of ''r1'')
        (JObj [(ustr_of ''properties'',
             JObj [(ustr_of ''GPT '' @ [20462, 27491, 24460, 30701, 25991],
                    JObj [(ustr_of ''rich_text'',
                           JArr [JObj [(ustr_of ''text'', JObj [(ustr_of ''content'', JStr (ustr_of ''Hello  there''))])]])]),
                   ([37679, 35492, 20998, 26512] @ ustr_of '' '',
                    JObj [(ustr_of ''rich_text'',
                           JArr [JObj [(ustr_of ''text'', JObj [(ustr_of ''content'', JStr (ustr_of ''[note\<newline>more] x''))])]])]),
                   (ustr_of ''GPT '' @ [39640, 20998, 24314, 35696],
                    JObj [(ustr_of ''rich_text'',
                           JArr [JObj [(ustr_of ''text'', JObj [(ustr_of ''content'', JStr [])])]])])])])]
   \<and> cleaned (ustr_of '' [label] Hello [x] there '') (ustr_of ''Hello  there'')
   \<and> \<not> cleaned (ustr_of '' [label] Hello [x] there '') []"
proof -
  note t = update_notion_page_writes_cleaned
      [of "fixed_env JNull [] 200" "ustr_of ''r1''" "ustr_of '' [label] Hello [x] there ''"
          "ustr_of ''[note\<newline>more] x''" "[]"]
  note trace = t [THEN conjunct1, unfolded clean_text_examples]
  note holds = t [THEN conjunct2, THEN conjunct1, unfolded clean_text_examples]
  note only = t [THEN conjunct2, THEN conjunct2, THEN conjunct1, unfolded clean_text_examples]
  have "ustr_of ''Hello  there'' \<noteq> []" by (simp add: ustr_of_def)
  with only have "\<not> cleaned (ustr_of '' [label] Hello [x] there '') []" by metis
  with trace holds show ?thesis by (intro conjI)
qed

section \<open>Properties of \<open>trigger_python\<close>\<close>

lemma get_page_content_trace: "snd (get_page_content e page_id) = [HttpGet (blocks_url page_id)]"
  by (simp add: get_page_content_def Let_def)

lemma correct_grammar_trace:
  "snd (correct_grammar e text) = [ChatCompletion groq_model (messages text)]"
  by (simp add: correct_grammar_def Let_def split: sum.splits)

lemma update_notion_page_ok:
  "notion_patch e (page_url row) (notion_data (clean_text a) (clean_text b) (clean_text c)) = Inr response
   \<Longrightarrow> update_notion_page e row a b c =
         (Inr (), [HttpPatch (page_url row) (notion_data (clean_text a) (clean_text b) (clean_text c))])"
  by (simp add: update_notion_page_def Let_def)

lemma clean_text_format_error: "clean_text format_error = format_error"
  by (simp add: clean_text_def format_error_def py_strip_def is_space_def ustr_of_def)

lemma clean_text_empty: "clean_text [] = []"
  by (simp add: clean_text_def py_strip_def)

lemma example_args_get:
  "args_get example_args (ustr_of ''text_page_id'') = Some (ustr_of ''p1'')"
  "args_get example_args (ustr_of ''row_page_id'') = Some (ustr_of ''r1'')"
  "args_get [(ustr_of ''text_page_id'', ustr_of ''p1'')] (ustr_of ''row_page_id'') = None"
  "ustr_of ''p1'' \<noteq> []" "ustr_of ''r1'' \<noteq> []"
  by (simp_all add: example_args_def args_get_def ustr_of_def)

lemma empty_page_content:
  "fst (get_page_content (fixed_env (JObj [(k_results, JArr empty_blocks)]) reply status) page_id)
     = Inr (Some [])"
  using empty_blocks_textless
  by (simp add: get_page_content_def Let_def fixed_env_def content_of_no_paragraph_text)

lemma example_page_content:
  "fst (get_page_content (fixed_env example_page reply status) page_id)
     = Inr (Some (ustr_of ''Hello\<newline>World''))"
proof -
  have "content_of_response example_page
          = Inr (Some (py_join [newline] (paragraph_texts example_blocks)))"
    unfolding example_page_def
    by (rule content_of_results) (simp_all add: keys_distinct example_classified)
  then show ?thesis
    by (simp add: get_page_content_def Let_def fixed_env_def example_paragraph_texts ustr_of_def)
qed

text \<open>
  Claim C6. When \<open>text_page_id\<close> or \<open>row_page_id\<close> is missing from the query (or
  empty), the handler answers 400 with the diagnostic body and makes no outbound
  request. When both are given and \<open>get_page_content\<close> yields no content (\<open>None\<close> or
  the empty string), the handler answers 400 and the read is the only request made: no
  completion request, no update request.
\<close>

theorem trigger_python_bad_request:
  "(\<not> str_truthy (args_get args (ustr_of ''text_page_id''))
      \<or> \<not> str_truthy (args_get args (ustr_of ''row_page_id''))
     \<longrightarrow> trigger_python e args = (Inr (missing_id_body, 400), []))
   \<and> (args_get args (ustr_of ''text_page_id'') = Some text_page_id \<and> text_page_id \<noteq> []
      \<and> args_get args (ustr_of ''row_page_id'') = Some row_page_id \<and> row_page_id \<noteq> []
      \<and> fst (get_page_content e text_page_id) = Inr content \<and> \<not> str_truthy content
     \<longrightarrow> trigger_python e args =
           (Inr (no_content_body, 400), [HttpGet (blocks_url text_page_id)]))"
proof -
  let ?t = "args_get args (ustr_of ''text_page_id'')"
  let ?r = "args_get args (ustr_of ''row_page_id'')"
  have a: "\<not> str_truthy ?t \<or> \<not> str_truthy ?r
           \<longrightarrow> trigger_python e args = (Inr (missing_id_body, 400), [])"
    by (cases ?t; cases ?r) (auto simp: trigger_python_def)
  have b: "trigger_python e args = (Inr (no_content_body, 400), [HttpGet (blocks_url text_page_id)])"
    if ids: "?t = Some text_page_id" "text_page_id \<noteq> []" "?r = Some row_page_id" "row_page_id \<noteq> []"
      and c: "fst (get_page_content e text_page_id) = Inr content" "\<not> str_truthy content"
  proof -
    have "get_page_content e text_page_id = (Inr content, [HttpGet (blocks_url text_page_id)])"
      using c(1) get_page_content_trace [of e text_page_id] by (simp add: prod_eq_iff)
    with ids c(2) show ?thesis
      by (cases content) (simp_all add: trigger_python_def)
  qed
  from a b show ?thesis by blast
qed

theorem trigger_python_bad_request_witness:
  "trigger_python (fixed_env example_page [] 200) [(ustr_of ''text_page_id'', ustr_of ''p1'')]
     = (Inr (missing_id_body, 400), [])
   \<and> trigger_python (fixed_env (JObj [(k_results, JArr empty_blocks)]) [] 200) example_args
     = (Inr (no_content_body, 400), [HttpGet (blocks_url (ustr_of ''p1''))])"
  using trigger_python_bad_request
      [where args = "[(ustr_of ''text_page_id'', ustr_of ''p1'')]"
         and e = "fixed_env example_page [] 200"]
    trigger_python_bad_request
      [where args = example_args and text_page_id = "ustr_of ''p1''"
         and row_page_id = "ustr_of ''r1''"
         and e = "fixed_env (JObj [(k_results, JArr empty_blocks)]) [] 200"
         and content = "Some []"]
  by (simp add: example_args_get empty_page_content)

text \<open>
  Claim C7. When both identifiers are given, \<open>get_page_content\<close> yields content, and
  the completion and update requests return (the update with any status), the handler
  answers 200 with the fixed success page, whatever the reply is. When the reply has
  fewer than three segments, \<open>update_notion_page\<close> is still called, with the diagnostic
  string and two empty strings, and that is what its request writes.
\<close>

theorem trigger_python_success:
  assumes "args_get args (ustr_of ''text_page_id'') = Some text_page_id" and "text_page_id \<noteq> []"
    and "args_get args (ustr_of ''row_page_id'') = Some row_page_id" and "row_page_id \<noteq> []"
    and "fst (get_page_content e text_page_id) = Inr (Some text)" and "text \<noteq> []"
    and "groq_chat e groq_model (messages text) = Inr reply"
    and "\<forall>url body. \<exists>response. notion_patch e url body = Inr response"
  shows "fst (trigger_python e args) = Inr (success_page, 200)
     \<and> (length (segments reply) < 3 \<longrightarrow>
          snd (trigger_python e args) =
            HttpGet (blocks_url text_page_id) # ChatCompletion groq_model (messages text)
              # snd (update_notion_page e row_page_id format_error [] [])
          \<and> snd (update_notion_page e row_page_id format_error [] []) =
              [HttpPatch (page_url row_page_id) (notion_data format_error [] [])])"
proof -
  have g: "get_page_content e text_page_id = (Inr (Some text), [HttpGet (blocks_url text_page_id)])"
    using assms(5) get_page_content_trace [of e text_page_id] by (simp add: prod_eq_iff)
  obtain a b c where
    cg: "correct_grammar e text = (Inr (a, b, c), [ChatCompletion groq_model (messages text)])"
    and few: "length (segments reply) < 3 \<longrightarrow> (a, b, c) = (format_error, [], [])"
    using assms(7)
    by (cases "length (segments reply) < 3") (auto simp: correct_grammar_def Let_def)
  have up: "\<And>x y z. update_notion_page e row_page_id x y z =
      (Inr (), [HttpPatch (page_url row_page_id) (notion_data (clean_text x) (clean_text y) (clean_text z))])"
    using assms(8) by (metis update_notion_page_ok)
  have "trigger_python e args = (Inr (success_page, 200),
      [HttpGet (blocks_url text_page_id), ChatCompletion groq_model (messages text),
       HttpPatch (page_url row_page_id) (notion_data (clean_text a) (clean_text b) (clean_text c))])"
    using assms(1-4,6) g cg up by (simp add: trigger_python_def)
  with few up show ?thesis
    by (auto simp: clean_text_format_error clean_text_empty)
qed

theorem trigger_python_success_witness:
  "trigger_python (fixed_env example_page (ustr_of ''A\<newline>\<newline>B'') 500) example_args
     = (Inr (success_page, 200),
        [HttpGet (blocks_url (ustr_of ''p1'')),
         ChatCompletion groq_model (messages (ustr_of ''Hello\<newline>World'')),
         HttpPatch (page_url (ustr_of ''r1'')) (notion_data format_error [] [])])"
proof -
  let ?e = "fixed_env example_page (ustr_of ''A\<newline>\<newline>B'') 500"
  have 1: "groq_chat ?e groq_model (messages (ustr_of ''Hello\<newline>World'')) = Inr (ustr_of ''A\<newline>\<newline>B'')"
    by (simp add: fixed_env_def)
  have 2: "\<forall>url body. \<exists>response. notion_patch ?e url body = Inr response"
    by (simp add: fixed_env_def)
  have 3: "ustr_of ''Hello\<newline>World'' \<noteq> []" by (simp add: ustr_of_def)
  have 4: "length (segments (ustr_of ''A\<newline>\<newline>B'')) < 3" by (simp add: segments_example_two)
  show ?thesis
    using trigger_python_success [OF example_args_get(1) example_args_get(4) example_args_get(2)
        example_args_get(5) example_page_content 3 1 2] 4
    by (simp add: prod_eq_iff)
qed

end
